theory Spec2Isabelle
  imports Complex_Main
begin

section \<open>simple_time_tracker.py: the timer state machine and its two logs\<close>

text \<open>
  The program is one Tk application object whose button handlers \<open>on_play\<close>, \<open>on_pause\<close>
  and \<open>on_stop\<close> run one at a time on the event loop. The embedding passes the object's
  fields (a \<open>session\<close>) and everything the handlers touch outside it (a \<open>world\<close>: the two
  log files, the message boxes shown, the dialogs opened, the three buttons and the
  label) through each handler, and gives a handler what it reads from outside as an \<open>env\<close>:
  the clock, the user's actions in the dialog, the fresh uuid, and whether each append
  raises.

  Modelling decisions.
  \<^item> \<open>time.time()\<close> returns a float; instants are \<open>real\<close> here. The only arithmetic on
    them is the difference \<open>now - _last_resume_at\<close> followed by \<open>int(...)\<close>, which
    truncates towards zero.
  \<^item> Python's \<open>int\<close> is unbounded: \<open>accum_seconds\<close> is an \<open>int\<close>.
  \<^item> A Python \<open>str\<close> is a \<open>string\<close> whose characters stand for the code points below 256.
  \<^item> The values handed to \<open>json.dumps\<close> and \<open>csv.writer.writerow\<close> are what the logs
    hold here: a log is the list of the objects appended to it, an append adds its
    object whole or raises and adds nothing. The byte encodings of the two library
    writers are outside the program.
  \<^item> \<open>datetime.isoformat\<close> and \<open>strftime\<close> are library functions of the instant; the
    \<open>env\<close> supplies them.
\<close>

subsection \<open>Configuration\<close>

definition APP_TITLE :: string where
  "APP_TITLE = ''Time Tracker''"

definition STATUSES :: "string list" where
  "STATUSES = [''done'', ''in_progress'', ''blocked'', ''review'', ''cancelled'', ''other'']"

subsection \<open>Data model\<close>

datatype pyval = PStr string | PInt int

record TimeEntry =
  entry_id :: string
  date :: string
  start_iso :: string
  end_iso :: string
  duration_seconds :: int
  duration_hms :: string
  ticket_url :: string
  note_text :: string
  status :: string

text \<open>\<open>TimeEntry.to_row\<close>: the fields in the order the method lists them.\<close>

definition to_row :: "TimeEntry \<Rightarrow> pyval list" where
  "to_row e =
     [PStr (entry_id e), PStr (date e), PStr (start_iso e), PStr (end_iso e),
      PInt (duration_seconds e), PStr (duration_hms e), PStr (ticket_url e),
      PStr (note_text e), PStr (status e)]"

text \<open>\<open>dataclasses.asdict\<close>: the fields by name, in the order the class declares them.\<close>

definition asdict :: "TimeEntry \<Rightarrow> (string \<times> pyval) list" where
  "asdict e =
     [(''id'', PStr (entry_id e)), (''date'', PStr (date e)),
      (''start_iso'', PStr (start_iso e)), (''end_iso'', PStr (end_iso e)),
      (''duration_seconds'', PInt (duration_seconds e)),
      (''duration_hms'', PStr (duration_hms e)),
      (''ticket_url'', PStr (ticket_url e)), (''note'', PStr (note_text e)),
      (''status'', PStr (status e))]"

definition CSV_HEADER :: "string list" where
  "CSV_HEADER =
     [''id'', ''date'', ''start_iso'', ''end_iso'', ''duration_seconds'', ''duration_hms'',
      ''ticket_url'', ''note'', ''status'']"

subsection \<open>Helpers\<close>

text \<open>\<open>int(x)\<close> on a float: the integer part, rounding towards zero.\<close>

definition py_int :: "real \<Rightarrow> int" where
  "py_int x = (if 0 \<le> x then \<lfloor>x\<rfloor> else \<lceil>x\<rceil>)"

definition digit_char :: "nat \<Rightarrow> char" where
  "digit_char d = ''0123456789'' ! d"

fun dec :: "nat \<Rightarrow> string" where
  "dec n = (if n < 10 then [digit_char n] else dec (n div 10) @ [digit_char (n mod 10)])"

declare dec.simps [simp del]

text \<open>The format \<open>{v:02d}\<close>: at least two characters, zero filled after the sign.\<close>

definition fmt02d :: "int \<Rightarrow> string" where
  "fmt02d v =
     (if v < 0 then CHR ''-'' # dec (nat (- v))
      else if v < 10 then CHR ''0'' # dec (nat v)
      else dec (nat v))"

definition fmt_hms :: "int \<Rightarrow> string" where
  "fmt_hms seconds =
     (let h = seconds div 3600;
          m = (seconds mod 3600) div 60;
          s = seconds mod 60
      in fmt02d h @ '':'' @ fmt02d m @ '':'' @ fmt02d s)"

text \<open>
  \<open>str.strip()\<close> removes the characters Python counts as whitespace from both ends;
  below 256 these are the code points 9 to 13, 28 to 32, 133 and 160.
\<close>

definition py_isspace :: "char \<Rightarrow> bool" where
  "py_isspace c =
     (c \<in> set [CHR 0x09, CHR 0x0A, CHR 0x0B, CHR 0x0C, CHR 0x0D, CHR 0x1C, CHR 0x1D,
               CHR 0x1E, CHR 0x1F, CHR 0x20, CHR 0x85, CHR 0xA0])"

definition strip :: "string \<Rightarrow> string" where
  "strip s = rev (dropWhile py_isspace (rev (dropWhile py_isspace s)))"

text \<open>\<open>d.get(k, default)\<close> on a dict kept as an association list.\<close>

definition dict_get :: "(string \<times> 'v) list \<Rightarrow> string \<Rightarrow> 'v \<Rightarrow> 'v" where
  "dict_get d k dflt = (case map_of d k of None \<Rightarrow> dflt | Some v \<Rightarrow> v)"

subsection \<open>Entry dialog\<close>

record EntryDialog =
  link_var :: string
  note_var :: string
  status_var :: string
  result :: "(string \<times> string) list option"

text \<open>\<open>EntryDialog.__init__\<close>: empty text fields, the status preset to \<open>STATUSES[0]\<close>.\<close>

definition EntryDialog_init :: EntryDialog where
  "EntryDialog_init =
     \<lparr>link_var = '''', note_var = '''', status_var = STATUSES ! 0, result = None\<rparr>"

definition save :: "EntryDialog \<Rightarrow> EntryDialog" where
  "save d =
     d\<lparr>result := Some
         [(''ticket_url'', strip (link_var d)),
          (''note'', strip (note_var d)),
          (''status'', (let s = strip (status_var d) in if s = [] then ''other'' else s))]\<rparr>"

definition cancel :: "EntryDialog \<Rightarrow> EntryDialog" where
  "cancel d = d\<lparr>result := None\<rparr>"

text \<open>
  What the user can do in the dialog before it is destroyed. The two text entries take
  any string; the status box is a \<open>Combobox\<close> in state \<open>readonly\<close> over \<open>STATUSES\<close>, so the
  user picks one of its values by position. Save and Cancel (or Return and Escape) end
  the dialog; running out of actions stands for closing the window, which leaves
  \<open>result\<close> as \<open>__init__\<close> set it.
\<close>

datatype dialog_action =
  SetLink string | SetNote string | SelectStatus nat | PressSave | PressCancel

fun wait_window :: "EntryDialog \<Rightarrow> dialog_action list \<Rightarrow> EntryDialog" where
  "wait_window d [] = d"
| "wait_window d (SetLink x # acts) = wait_window (d\<lparr>link_var := x\<rparr>) acts"
| "wait_window d (SetNote x # acts) = wait_window (d\<lparr>note_var := x\<rparr>) acts"
| "wait_window d (SelectStatus i # acts) =
     wait_window (if i < length STATUSES then d\<lparr>status_var := STATUSES ! i\<rparr> else d) acts"
| "wait_window d (PressSave # acts) = save d"
| "wait_window d (PressCancel # acts) = cancel d"

subsection \<open>Application state and its surroundings\<close>

datatype tstate = Idle | Running | Paused

record session =
  state :: tstate
  session_start :: "real option"
  session_end :: "real option"
  accum_seconds :: int
  tick_job :: bool
  last_resume_at :: "real option"

datatype notice = ShowInfo string string | ShowError string string

record world =
  jsonl_log :: "(string \<times> pyval) list list"
  csv_log :: "pyval list list"
  notices :: "notice list"
  dialogs :: "string list"
  play_btn :: bool
  pause_btn :: bool
  stop_btn :: bool
  elapsed_lbl :: string

type_synonym app = "session \<times> world"

record env =
  now :: real
  tick_time :: real
  dialog_actions :: "dialog_action list"
  uuid4 :: string
  isoformat_utc :: "real \<Rightarrow> string"
  local_date :: "real \<Rightarrow> string"
  jsonl_error :: "string option"
  csv_error :: "string option"

text \<open>\<open>_update_buttons\<close>: a button is enabled (\<open>True\<close>) in the states the method names.\<close>

definition update_buttons :: "app \<Rightarrow> app" where
  "update_buttons a =
     (case a of (s, w) \<Rightarrow>
        (s, w\<lparr>play_btn := (state s = Idle \<or> state s = Paused),
              pause_btn := (state s = Running),
              stop_btn := (state s = Running \<or> state s = Paused)\<rparr>))"

text \<open>\<open>_tick\<close>, with the instant its own \<open>time.time()\<close> call returns.\<close>

definition tick :: "real \<Rightarrow> app \<Rightarrow> app" where
  "tick t a =
     (case a of (s, w) \<Rightarrow>
        (let total =
               (case last_resume_at s of
                  Some r \<Rightarrow> if state s = Running then accum_seconds s + py_int (t - r)
                            else accum_seconds s
                | None \<Rightarrow> accum_seconds s)
         in (s\<lparr>tick_job := True\<rparr>, w\<lparr>elapsed_lbl := fmt_hms total\<rparr>)))"

definition start_tick :: "real \<Rightarrow> app \<Rightarrow> app" where
  "start_tick t a = (if tick_job (fst a) then a else tick t a)"

text \<open>
  \<open>ensure_paths\<close>, on the two files as found (\<open>None\<close> for a missing file): a new
  tabular log starts with the header row, a new structured log is empty.
\<close>

definition ensure_paths ::
  "(string \<times> pyval) list list option \<Rightarrow> pyval list list option \<Rightarrow>
   (string \<times> pyval) list list \<times> pyval list list"
where
  "ensure_paths jf cf =
     ((case jf of None \<Rightarrow> [] | Some jl \<Rightarrow> jl),
      (case cf of None \<Rightarrow> [map PStr CSV_HEADER] | Some cl \<Rightarrow> cl))"

text \<open>
  The fields \<open>__init__\<close> sets, over log files that hold \<open>jl\<close> and \<open>cl\<close> once
  \<open>ensure_paths\<close> has run.
\<close>

definition init_app :: "(string \<times> pyval) list list \<Rightarrow> pyval list list \<Rightarrow> app" where
  "init_app jl cl =
     update_buttons
       (\<lparr>state = Idle, session_start = None, session_end = None, accum_seconds = 0,
         tick_job = False, last_resume_at = None\<rparr>,
        \<lparr>jsonl_log = jl, csv_log = cl, notices = [], dialogs = [],
         play_btn = True, pause_btn = True, stop_btn = True,
         elapsed_lbl = ''00:00:00''\<rparr>)"

subsection \<open>Button handlers\<close>

definition on_play :: "env \<Rightarrow> app \<Rightarrow> app" where
  "on_play e a =
     (case a of (s, w) \<Rightarrow>
        (case state s of
           Running \<Rightarrow> a
         | Idle \<Rightarrow>
             update_buttons (start_tick (tick_time e)
               (s\<lparr>session_start := Some (now e), accum_seconds := 0,
                  state := Running, last_resume_at := Some (now e)\<rparr>, w))
         | Paused \<Rightarrow>
             update_buttons (start_tick (tick_time e)
               (s\<lparr>state := Running, last_resume_at := Some (now e)\<rparr>, w))))"

text \<open>The seconds a handler adds for the segment that began at \<open>_last_resume_at\<close>.\<close>

definition segment_seconds :: "real option \<Rightarrow> real \<Rightarrow> int" where
  "segment_seconds resume t = (case resume of None \<Rightarrow> 0 | Some r \<Rightarrow> py_int (t - r))"

definition on_pause :: "env \<Rightarrow> app \<Rightarrow> app" where
  "on_pause e a =
     (case a of (s, w) \<Rightarrow>
        if state s \<noteq> Running then a
        else update_buttons
               (s\<lparr>accum_seconds := accum_seconds s + segment_seconds (last_resume_at s) (now e),
                  last_resume_at := None, state := Paused\<rparr>, w))"

text \<open>\<open>_reset_session\<close>.\<close>

definition reset_session :: "real \<Rightarrow> app \<Rightarrow> app" where
  "reset_session t a =
     (case a of (s, w) \<Rightarrow>
        start_tick t
          (update_buttons
             (s\<lparr>accum_seconds := 0, session_start := None, session_end := None,
                state := Idle\<rparr>, w)))"

text \<open>
  The first part of \<open>on_stop\<close> (finalize duration), up to \<open>self.session_end = now\<close>;
  \<open>total_sec\<close> is the value the handler then reads back from \<open>accum_seconds\<close>.
\<close>

definition total_sec :: "real \<Rightarrow> session \<Rightarrow> int" where
  "total_sec t s =
     (if state s = Running then accum_seconds s + segment_seconds (last_resume_at s) t
      else accum_seconds s)"

definition finalize :: "real \<Rightarrow> session \<Rightarrow> session" where
  "finalize t s =
     s\<lparr>accum_seconds := total_sec t s,
       last_resume_at := None, state := Idle, session_end := Some t\<rparr>"

text \<open>\<open>x or now\<close> on an optional float: \<open>None\<close> and \<open>0.0\<close> are both false.\<close>

definition or_now :: "real option \<Rightarrow> real \<Rightarrow> real" where
  "or_now x t = (case x of None \<Rightarrow> t | Some v \<Rightarrow> if v = 0 then t else v)"

text \<open>The entry \<open>on_stop\<close> builds from the finalized session and the dialog's result.\<close>

definition build_entry :: "env \<Rightarrow> session \<Rightarrow> (string \<times> string) list \<Rightarrow> TimeEntry" where
  "build_entry e s details =
     (let start_dt = or_now (session_start s) (now e);
          end_dt = or_now (session_end s) (now e)
      in \<lparr>entry_id = uuid4 e,
          date = local_date e start_dt,
          start_iso = isoformat_utc e start_dt,
          end_iso = isoformat_utc e end_dt,
          duration_seconds = accum_seconds s,
          duration_hms = fmt_hms (accum_seconds s),
          ticket_url = dict_get details ''ticket_url'' '''',
          note_text = dict_get details ''note'' '''',
          status = dict_get details ''status'' ''other''\<rparr>)"

text \<open>
  The \<open>try\<close> block: the structured log first, the tabular log second. The result is
  the message of the exception raised, if any, and the files as the block leaves them.
\<close>

definition write_logs :: "env \<Rightarrow> TimeEntry \<Rightarrow> world \<Rightarrow> string option \<times> world" where
  "write_logs e entry w =
     (case jsonl_error e of
        Some msg \<Rightarrow> (Some msg, w)
      | None \<Rightarrow>
          (let w1 = w\<lparr>jsonl_log := jsonl_log w @ [asdict entry]\<rparr>
           in case csv_error e of
                Some msg \<Rightarrow> (Some msg, w1)
              | None \<Rightarrow> (None, w1\<lparr>csv_log := csv_log w1 @ [to_row entry]\<rparr>)))"

definition show_notice :: "notice \<Rightarrow> world \<Rightarrow> world" where
  "show_notice n w = w\<lparr>notices := notices w @ [n]\<rparr>"

definition on_stop :: "env \<Rightarrow> app \<Rightarrow> app" where
  "on_stop e a =
     (case a of (s, w) \<Rightarrow>
        if state s \<noteq> Running \<and> state s \<noteq> Paused then a
        else
          (let s1 = finalize (now e) s;
               total = accum_seconds s1;
               w1 = snd (update_buttons (s1, w))
           in if total \<le> 0 then
                reset_session (tick_time e)
                  (s1, show_notice (ShowInfo APP_TITLE ''Nothing to save (duration is 0s).'') w1)
              else
                (let w2 = w1\<lparr>dialogs := dialogs w1 @ [fmt_hms total]\<rparr>;
                     details = result (wait_window EntryDialog_init (dialog_actions e))
                 in case details of
                      None \<Rightarrow> update_buttons (s1\<lparr>state := Paused\<rparr>, w2)
                    | Some d \<Rightarrow>
                        if d = [] then update_buttons (s1\<lparr>state := Paused\<rparr>, w2)
                        else
                          (case write_logs e (build_entry e s1 d) w2 of
                             (Some msg, w3) \<Rightarrow>
                               update_buttons
                                 (s1\<lparr>state := Paused\<rparr>,
                                  show_notice
                                    (ShowError APP_TITLE (''Failed to write logs: '' @ msg)) w3)
                           | (None, w3) \<Rightarrow>
                               reset_session (tick_time e)
                                 (s1, show_notice (ShowInfo APP_TITLE ''Entry saved.'') w3)))))"

subsection \<open>Runs\<close>

datatype event = Play | Pause | Stop

fun step :: "event \<Rightarrow> env \<Rightarrow> app \<Rightarrow> app" where
  "step Play e a = on_play e a"
| "step Pause e a = on_pause e a"
| "step Stop e a = on_stop e a"

fun run :: "(event \<times> env) list \<Rightarrow> app \<Rightarrow> app" where
  "run [] a = a"
| "run ((ev, e) # evs) a = run evs (step ev e a)"

subsection \<open>The invariant on the resume instant\<close>

text \<open>\<open>_last_resume_at\<close> is set exactly in the running state.\<close>

definition resume_inv :: "session \<Rightarrow> bool" where
  "resume_inv s = ((last_resume_at s \<noteq> None) = (state s = Running))"

subsection \<open>Concrete sessions\<close>

text \<open>
  An environment at instant \<open>t\<close> in which the user closes the dialog without saving and
  no append fails, and two sessions reached from the initial state: one paused with 125
  seconds on the clock, one running with 65 seconds committed.
\<close>

definition at_time :: "real \<Rightarrow> env" where
  "at_time t =
     \<lparr>now = t, tick_time = t, dialog_actions = [], uuid4 = ''uuid-1'',
      isoformat_utc = (\<lambda>x. dec (nat \<lfloor>x\<rfloor>)), local_date = (\<lambda>x. ''1970-01-01''),
      jsonl_error = None, csv_error = None\<rparr>"

definition paused_app :: app where
  "paused_app =
     run [(Play, at_time 5), (Pause, at_time 70), (Play, at_time 75), (Pause, at_time 135)]
       (init_app [] [])"

definition running_app :: app where
  "running_app = run [(Play, at_time 5), (Pause, at_time 70), (Play, at_time 75)] (init_app [] [])"

subsection \<open>Auxiliary notions for the proofs\<close>

text \<open>The world at the moment \<open>on_stop\<close> has opened the dialog for a positive total.\<close>

definition prompted :: "env \<Rightarrow> session \<Rightarrow> world \<Rightarrow> world" where
  "prompted e s w =
     (snd (update_buttons (finalize (now e) s, w)))
       \<lparr>dialogs := dialogs (snd (update_buttons (finalize (now e) s, w))) @
                     [fmt_hms (total_sec (now e) s)]\<rparr>"

text \<open>
  The entry a Stop builds, when it gets as far as building one: the state is not idle,
  the total is positive and the dialog returns a result.
\<close>

definition stop_entry :: "env \<Rightarrow> session \<Rightarrow> TimeEntry option" where
  "stop_entry e s =
     (if state s = Idle \<or> total_sec (now e) s \<le> 0 then None
      else map_option (build_entry e (finalize (now e) s))
             (result (wait_window EntryDialog_init (dialog_actions e))))"

text \<open>
  What a Stop appends to the structured log and to the tabular log, read off
  \<open>on_stop\<close> (lemma \<open>on_stop_logs\<close> below proves that this is what it appends).
\<close>

definition stop_records :: "env \<Rightarrow> session \<Rightarrow> (string \<times> pyval) list list" where
  "stop_records e s =
     (case stop_entry e s of
        None \<Rightarrow> []
      | Some x \<Rightarrow> if jsonl_error e = None then [asdict x] else [])"

definition stop_rows :: "env \<Rightarrow> session \<Rightarrow> pyval list list" where
  "stop_rows e s =
     (case stop_entry e s of
        None \<Rightarrow> []
      | Some x \<Rightarrow> if jsonl_error e = None \<and> csv_error e = None then [to_row x] else [])"

text \<open>
  An environment at instant \<open>t\<close> in which the user fills in the dialog and saves.
\<close>

definition confirm_at :: "real \<Rightarrow> env" where
  "confirm_at t =
     (at_time t)\<lparr>dialog_actions :=
       [SetLink ''https://tracker/T-1 '', SetNote ''a, b'', SelectStatus 3, PressSave]\<rparr>"

subsection \<open>Running segments\<close>

text \<open>
  Running segments, following the specification's words: a segment is one uninterrupted
  running interval between a Play (or resume) and the next Pause or Stop, and its
  whole-second duration is the truncation of its end minus its start. \<open>track\<close> reads
  the segments off a sequence of events: it keeps the start of the open segment and the
  list of the segments closed since the last reset to zero, a reset being a Play from
  idle or a Stop that ends idle. It looks at the application only for the state before
  and after each event, never at \<open>accum_seconds\<close>.
\<close>

type_synonym segment = "real \<times> real"

definition seg_seconds :: "segment \<Rightarrow> int" where
  "seg_seconds sg = py_int (snd sg - fst sg)"

definition close_segment :: "real option \<Rightarrow> real \<Rightarrow> segment list" where
  "close_segment opn t = (case opn of None \<Rightarrow> [] | Some r \<Rightarrow> [(r, t)])"

fun track_step ::
  "event \<Rightarrow> real \<Rightarrow> tstate \<Rightarrow> tstate \<Rightarrow> real option \<times> segment list \<Rightarrow> real option \<times> segment list"
where
  "track_step Play t Idle st' (opn, segs) = (Some t, [])"
| "track_step Play t Paused st' (opn, segs) = (Some t, segs)"
| "track_step Play t Running st' g = g"
| "track_step Pause t Running st' (opn, segs) = (None, segs @ close_segment opn t)"
| "track_step Pause t st st' g = g"
| "track_step Stop t Idle st' g = g"
| "track_step Stop t st Idle (opn, segs) = (None, [])"
| "track_step Stop t st st' (opn, segs) = (None, segs @ close_segment opn t)"

fun track ::
  "(event \<times> env) list \<Rightarrow> app \<Rightarrow> real option \<times> segment list \<Rightarrow> real option \<times> segment list"
where
  "track [] a g = g"
| "track ((ev, e) # evs) a g =
     track evs (step ev e a)
       (track_step ev (now e) (state (fst a)) (state (fst (step ev e a))) g)"

text \<open>
  The enabled-button preconditions: Play in idle or paused, Pause in running, Stop in
  running or paused.
\<close>

fun enabled :: "event \<Rightarrow> tstate \<Rightarrow> bool" where
  "enabled Play st = (st = Idle \<or> st = Paused)"
| "enabled Pause st = (st = Running)"
| "enabled Stop st = (st = Running \<or> st = Paused)"

fun respects_buttons :: "(event \<times> env) list \<Rightarrow> app \<Rightarrow> bool" where
  "respects_buttons [] a = True"
| "respects_buttons ((ev, e) # evs) a = (enabled ev (state (fst a)) \<and> respects_buttons evs (step ev e a))"

text \<open>
  The relation the proof maintains between the application and the tracked segments.
\<close>

definition tracks :: "app \<Rightarrow> real option \<times> segment list \<Rightarrow> bool" where
  "tracks a g =
     (accum_seconds (fst a) = sum_list (map seg_seconds (snd g)) \<and>
      fst g = last_resume_at (fst a) \<and> resume_inv (fst a))"

text \<open>
  A session with two segments of 1.9 seconds each.
\<close>

definition drift_events :: "(event \<times> env) list" where
  "drift_events =
     [(Play, at_time 1), (Pause, at_time (29 / 10)), (Play, at_time 3),
      (Pause, at_time (49 / 10))]"



section \<open>Properties\<close>

subsection \<open>What the helpers leave alone\<close>

lemma fst_update_buttons: "fst (update_buttons a) = fst a"
  by (simp add: update_buttons_def split: prod.split)

lemma files_update_buttons:
  "jsonl_log (snd (update_buttons a)) = jsonl_log (snd a)"
  "csv_log (snd (update_buttons a)) = csv_log (snd a)"
  "notices (snd (update_buttons a)) = notices (snd a)"
  "dialogs (snd (update_buttons a)) = dialogs (snd a)"
  by (simp_all add: update_buttons_def split: prod.split)

lemma session_start_tick:
  "state (fst (start_tick t a)) = state (fst a)"
  "accum_seconds (fst (start_tick t a)) = accum_seconds (fst a)"
  "session_start (fst (start_tick t a)) = session_start (fst a)"
  "session_end (fst (start_tick t a)) = session_end (fst a)"
  "last_resume_at (fst (start_tick t a)) = last_resume_at (fst a)"
  by (simp_all add: start_tick_def tick_def Let_def split: prod.split)

lemma files_start_tick:
  "jsonl_log (snd (start_tick t a)) = jsonl_log (snd a)"
  "csv_log (snd (start_tick t a)) = csv_log (snd a)"
  "notices (snd (start_tick t a)) = notices (snd a)"
  "dialogs (snd (start_tick t a)) = dialogs (snd a)"
  by (simp_all add: start_tick_def tick_def Let_def split: prod.split)

lemma session_reset_session:
  "state (fst (reset_session t a)) = Idle"
  "accum_seconds (fst (reset_session t a)) = 0"
  "session_start (fst (reset_session t a)) = None"
  "session_end (fst (reset_session t a)) = None"
  "last_resume_at (fst (reset_session t a)) = last_resume_at (fst a)"
  by (simp_all add: reset_session_def session_start_tick fst_update_buttons split: prod.split)

lemma files_reset_session:
  "jsonl_log (snd (reset_session t a)) = jsonl_log (snd a)"
  "csv_log (snd (reset_session t a)) = csv_log (snd a)"
  "notices (snd (reset_session t a)) = notices (snd a)"
  "dialogs (snd (reset_session t a)) = dialogs (snd a)"
  by (simp_all add: reset_session_def files_start_tick files_update_buttons split: prod.split)

lemmas frame_simps = fst_update_buttons files_update_buttons session_start_tick files_start_tick
  session_reset_session files_reset_session

lemma session_finalize:
  "state (finalize t s) = Idle"
  "accum_seconds (finalize t s) = total_sec t s"
  "session_start (finalize t s) = session_start s"
  "session_end (finalize t s) = Some t"
  "last_resume_at (finalize t s) = None"
  "tick_job (finalize t s) = tick_job s"
  by (simp_all add: finalize_def)

text \<open>The four ways a Stop in a non-idle state can end.\<close>

lemma on_stop_idle:
  "state s = Idle \<Longrightarrow> on_stop e (s, w) = (s, w)"
  by (simp add: on_stop_def)

lemma on_stop_zero:
  assumes "state s \<noteq> Idle" "total_sec (now e) s \<le> 0"
  shows "on_stop e (s, w) =
    reset_session (tick_time e)
      (finalize (now e) s,
       show_notice (ShowInfo APP_TITLE ''Nothing to save (duration is 0s).'')
         (snd (update_buttons (finalize (now e) s, w))))"
  using assms by (cases "state s") (simp_all add: on_stop_def Let_def session_finalize)

lemma on_stop_cancel:
  assumes "state s \<noteq> Idle" "0 < total_sec (now e) s"
    and "result (wait_window EntryDialog_init (dialog_actions e)) = None"
  shows "on_stop e (s, w) =
    update_buttons
      ((finalize (now e) s)\<lparr>state := Paused\<rparr>,
       (snd (update_buttons (finalize (now e) s, w)))
         \<lparr>dialogs := dialogs (snd (update_buttons (finalize (now e) s, w))) @ [fmt_hms (total_sec (now e) s)]\<rparr>)"
  using assms by (cases "state s") (simp_all add: on_stop_def Let_def session_finalize)

lemma result_save_nonempty: "result (save d) \<noteq> Some []"
  by (simp add: save_def)

lemma result_wait_window: "result d \<noteq> Some [] \<Longrightarrow> result (wait_window d acts) \<noteq> Some []"
  by (induction d acts rule: wait_window.induct) (simp_all add: save_def cancel_def)

lemma dialog_result_nonempty:
  "result (wait_window EntryDialog_init acts) \<noteq> Some []"
  by (rule result_wait_window) (simp add: EntryDialog_init_def)

lemma on_stop_confirm:
  assumes "state s \<noteq> Idle" "0 < total_sec (now e) s"
    and "result (wait_window EntryDialog_init (dialog_actions e)) = Some d"
  shows "on_stop e (s, w) =
    (case write_logs e (build_entry e (finalize (now e) s) d)
            ((snd (update_buttons (finalize (now e) s, w)))
               \<lparr>dialogs := dialogs (snd (update_buttons (finalize (now e) s, w))) @ [fmt_hms (total_sec (now e) s)]\<rparr>) of
       (Some msg, w3) \<Rightarrow>
         update_buttons
           ((finalize (now e) s)\<lparr>state := Paused\<rparr>,
            show_notice (ShowError APP_TITLE (''Failed to write logs: '' @ msg)) w3)
     | (None, w3) \<Rightarrow>
         reset_session (tick_time e)
           (finalize (now e) s, show_notice (ShowInfo APP_TITLE ''Entry saved.'') w3))"
proof -
  have "d \<noteq> []" using assms(3) dialog_result_nonempty [of "dialog_actions e"] by auto
  then show ?thesis
    using assms by (cases "state s") (simp_all add: on_stop_def Let_def session_finalize)
qed

lemmas eval_simps = at_time_def init_app_def update_buttons_def on_play_def on_pause_def
  start_tick_def tick_def segment_seconds_def py_int_def total_sec_def finalize_def
  on_stop_def reset_session_def show_notice_def write_logs_def build_entry_def or_now_def
  EntryDialog_init_def save_def cancel_def STATUSES_def strip_def py_isspace_def
  dict_get_def asdict_def to_row_def CSV_HEADER_def APP_TITLE_def Let_def

lemma paused_app_eval:
  "paused_app =
    (\<lparr>state = Paused, session_start = Some 5, session_end = None, accum_seconds = 125,
      tick_job = True, last_resume_at = None\<rparr>,
     \<lparr>jsonl_log = [], csv_log = [], notices = [], dialogs = [],
      play_btn = True, pause_btn = False, stop_btn = True, elapsed_lbl = ''00:00:00''\<rparr>)"
  by (simp add: paused_app_def eval_simps fmt_hms_def fmt02d_def dec.simps digit_char_def)

lemma running_app_eval:
  "running_app =
    (\<lparr>state = Running, session_start = Some 5, session_end = None, accum_seconds = 65,
      tick_job = True, last_resume_at = Some 75\<rparr>,
     \<lparr>jsonl_log = [], csv_log = [], notices = [], dialogs = [],
      play_btn = False, pause_btn = True, stop_btn = True, elapsed_lbl = ''00:00:00''\<rparr>)"
  by (simp add: running_app_def eval_simps fmt_hms_def fmt02d_def dec.simps digit_char_def)

text \<open>
  Claim C7. Play while running, Pause while not running and Stop while idle return the
  application exactly as it was: the same session fields, the same log files, no message
  box, no dialog, the same buttons and label.
\<close>

theorem disabled_handlers_noop:
  "(state (fst a) = Running \<longrightarrow> on_play e a = a) \<and>
   (state (fst b) \<noteq> Running \<longrightarrow> on_pause e b = b) \<and>
   (state (fst c) = Idle \<longrightarrow> on_stop e c = c)"
  by (cases a, cases b, cases c) (simp add: on_play_def on_pause_def on_stop_def)

theorem disabled_handlers_noop_witness:
  "state (fst running_app) = Running \<and> on_play (at_time 80) running_app = running_app \<and>
   state (fst paused_app) \<noteq> Running \<and> on_pause (at_time 80) paused_app = paused_app \<and>
   state (fst (init_app [] [])) = Idle \<and>
   on_stop (at_time 80) (init_app [] []) = init_app [] []"
proof -
  have r: "state (fst running_app) = Running" by (simp add: running_app_eval)
  have p: "state (fst paused_app) \<noteq> Running" by (simp add: paused_app_eval)
  have i: "state (fst (init_app [] [])) = Idle" by (simp add: init_app_def update_buttons_def)
  from r p i disabled_handlers_noop [of running_app "at_time 80" paused_app "init_app [] []"]
  show ?thesis by blast
qed

text \<open>
  Claim C9. \<open>_last_resume_at\<close> is set if and only if the state is running: this holds
  after \<open>__init__\<close>, and every handler preserves it, in each of the branches of Stop.
\<close>

theorem resume_inv_preserved:
  "resume_inv (fst (init_app jl cl)) \<and>
   (resume_inv (fst a) \<longrightarrow> resume_inv (fst (step ev e a)))"
proof
  show "resume_inv (fst (init_app jl cl))"
    by (simp add: resume_inv_def init_app_def update_buttons_def)
next
  show "resume_inv (fst a) \<longrightarrow> resume_inv (fst (step ev e a))"
  proof
    assume inv: "resume_inv (fst a)"
    obtain s w where a: "a = (s, w)" by (cases a)
    show "resume_inv (fst (step ev e a))"
    proof (cases ev)
      case Play
      with inv a show ?thesis
        by (cases "state s") (simp_all add: on_play_def resume_inv_def frame_simps)
    next
      case Pause
      with inv a show ?thesis
        by (simp add: on_pause_def resume_inv_def frame_simps)
    next
      case Stop
      show ?thesis
      proof (cases "state s = Idle")
        case True
        with inv a Stop show ?thesis by (simp add: on_stop_idle)
      next
        case False
        show ?thesis
        proof (cases "total_sec (now e) s \<le> 0")
          case True
          with False a Stop show ?thesis
            by (simp add: on_stop_zero resume_inv_def frame_simps session_finalize)
        next
          case pos: False
          show ?thesis
          proof (cases "result (wait_window EntryDialog_init (dialog_actions e))")
            case None
            with False pos a Stop show ?thesis
              by (simp add: on_stop_cancel resume_inv_def frame_simps session_finalize)
          next
            case (Some d)
            with False pos a Stop show ?thesis
              by (simp add: on_stop_confirm resume_inv_def frame_simps session_finalize
                    split: prod.split option.split)
          qed
        qed
      qed
    qed
  qed
qed

theorem resume_inv_preserved_witness:
  "resume_inv (fst (init_app [] [])) \<and> resume_inv (fst running_app) \<and>
   resume_inv (fst (step Stop (at_time 80) running_app))"
proof -
  have r: "resume_inv (fst running_app)" by (simp add: running_app_eval resume_inv_def)
  from r resume_inv_preserved [of "[]" "[]" running_app Stop "at_time 80"]
  show ?thesis by blast
qed

text \<open>
  Claim C6. A Stop (from running or paused) whose total is zero or negative appends
  nothing to either log and opens no dialog; it shows the "Nothing to save" message and
  leaves the session idle with zero accumulated seconds and no start or end instant.
\<close>

theorem stop_zero_total:
  assumes "state (fst a) = Running \<or> state (fst a) = Paused"
    and "total_sec (now e) (fst a) \<le> 0"
  shows "jsonl_log (snd (on_stop e a)) = jsonl_log (snd a) \<and>
         csv_log (snd (on_stop e a)) = csv_log (snd a) \<and>
         dialogs (snd (on_stop e a)) = dialogs (snd a) \<and>
         notices (snd (on_stop e a)) =
           notices (snd a) @ [ShowInfo APP_TITLE ''Nothing to save (duration is 0s).''] \<and>
         state (fst (on_stop e a)) = Idle \<and>
         accum_seconds (fst (on_stop e a)) = 0 \<and>
         session_start (fst (on_stop e a)) = None \<and>
         session_end (fst (on_stop e a)) = None \<and>
         last_resume_at (fst (on_stop e a)) = None"
proof -
  obtain s w where a: "a = (s, w)" by (cases a)
  from assms a have "state s \<noteq> Idle" and "total_sec (now e) s \<le> 0" by auto
  then have "on_stop e (s, w) =
      reset_session (tick_time e)
        (finalize (now e) s,
         show_notice (ShowInfo APP_TITLE ''Nothing to save (duration is 0s).'')
           (snd (update_buttons (finalize (now e) s, w))))"
    by (rule on_stop_zero)
  with a show ?thesis
    by (simp add: frame_simps session_finalize show_notice_def)
qed

theorem stop_zero_total_witness:
  "(state (fst (on_play (at_time 5) (init_app [] []))) = Running \<or>
    state (fst (on_play (at_time 5) (init_app [] []))) = Paused) \<and>
   total_sec (now (at_time 5)) (fst (on_play (at_time 5) (init_app [] []))) \<le> 0 \<and>
   jsonl_log (snd (on_stop (at_time 5) (on_play (at_time 5) (init_app [] [])))) = [] \<and>
   csv_log (snd (on_stop (at_time 5) (on_play (at_time 5) (init_app [] [])))) = [] \<and>
   notices (snd (on_stop (at_time 5) (on_play (at_time 5) (init_app [] [])))) =
     [ShowInfo ''Time Tracker'' ''Nothing to save (duration is 0s).''] \<and>
   state (fst (on_stop (at_time 5) (on_play (at_time 5) (init_app [] [])))) = Idle \<and>
   accum_seconds (fst (on_stop (at_time 5) (on_play (at_time 5) (init_app [] [])))) = 0"
proof -
  let ?a = "on_play (at_time 5) (init_app [] [])"
  have st: "state (fst ?a) = Running \<or> state (fst ?a) = Paused"
    by (simp add: eval_simps)
  have tot: "total_sec (now (at_time 5)) (fst ?a) \<le> 0"
    by (simp add: eval_simps)
  have w0: "jsonl_log (snd ?a) = []" "csv_log (snd ?a) = []" "notices (snd ?a) = []"
    by (simp_all add: eval_simps)
  from stop_zero_total [OF st tot] st tot w0 show ?thesis
    by (simp add: APP_TITLE_def)
qed

text \<open>
  Claim C4. A Stop with a positive total whose dialog returns no result (Cancel, Escape
  or closing the window) leaves the state paused, keeps the total in \<open>accum_seconds\<close>
  (the value the dialog showed: the seconds accumulated before, plus the open segment
  when the Stop came from running; so not zero), and appends nothing to either log.
\<close>

theorem stop_cancel_keeps_time:
  assumes "state (fst a) = Running \<or> state (fst a) = Paused"
    and "0 < total_sec (now e) (fst a)"
    and "result (wait_window EntryDialog_init (dialog_actions e)) = None"
  shows "state (fst (on_stop e a)) = Paused \<and>
         accum_seconds (fst (on_stop e a)) = total_sec (now e) (fst a) \<and>
         accum_seconds (fst (on_stop e a)) \<noteq> 0 \<and>
         jsonl_log (snd (on_stop e a)) = jsonl_log (snd a) \<and>
         csv_log (snd (on_stop e a)) = csv_log (snd a)"
proof -
  obtain s w where a: "a = (s, w)" by (cases a)
  from assms a have ne: "state s \<noteq> Idle" and pos: "0 < total_sec (now e) s" by auto
  from on_stop_cancel [OF ne pos assms(3)] a pos show ?thesis
    by (simp add: frame_simps session_finalize)
qed

theorem stop_cancel_keeps_time_witness:
  "(state (fst paused_app) = Running \<or> state (fst paused_app) = Paused) \<and>
   0 < total_sec (now (at_time 140)) (fst paused_app) \<and>
   result (wait_window EntryDialog_init (dialog_actions (at_time 140))) = None \<and>
   state (fst (on_stop (at_time 140) paused_app)) = Paused \<and>
   accum_seconds (fst paused_app) = 125 \<and>
   accum_seconds (fst (on_stop (at_time 140) paused_app)) = 125 \<and>
   jsonl_log (snd (on_stop (at_time 140) paused_app)) = [] \<and>
   csv_log (snd (on_stop (at_time 140) paused_app)) = []"
proof -
  have st: "state (fst paused_app) = Running \<or> state (fst paused_app) = Paused"
    by (simp add: paused_app_eval)
  have tot: "total_sec (now (at_time 140)) (fst paused_app) = 125"
    by (simp add: paused_app_eval total_sec_def)
  have pos: "0 < total_sec (now (at_time 140)) (fst paused_app)"
    by (simp add: tot)
  have dlg: "result (wait_window EntryDialog_init (dialog_actions (at_time 140))) = None"
    by (simp add: at_time_def EntryDialog_init_def)
  from stop_cancel_keeps_time [OF st pos dlg] st pos dlg tot show ?thesis
    by (simp add: paused_app_eval)
qed


lemma buttons_update_buttons:
  "play_btn (snd (update_buttons a)) = (state (fst a) = Idle \<or> state (fst a) = Paused)"
  "pause_btn (snd (update_buttons a)) = (state (fst a) = Running)"
  "stop_btn (snd (update_buttons a)) = (state (fst a) = Running \<or> state (fst a) = Paused)"
  by (simp_all add: update_buttons_def split: prod.split)

lemma write_logs_raises:
  assumes "jsonl_error e = Some msg \<or> (jsonl_error e = None \<and> csv_error e = Some msg)"
  shows "fst (write_logs e entry w) = Some msg"
    and "notices (snd (write_logs e entry w)) = notices w"
    and "csv_log (snd (write_logs e entry w)) = csv_log w"
  using assms by (auto simp: write_logs_def Let_def)

lemma write_logs_succeeds:
  assumes "jsonl_error e = None" "csv_error e = None"
  shows "fst (write_logs e entry w) = None"
    and "notices (snd (write_logs e entry w)) = notices w"
    and "jsonl_log (snd (write_logs e entry w)) = jsonl_log w @ [asdict entry]"
    and "csv_log (snd (write_logs e entry w)) = csv_log w @ [to_row entry]"
  using assms by (simp_all add: write_logs_def Let_def)

lemma files_prompted:
  "jsonl_log (prompted e s w) = jsonl_log w"
  "csv_log (prompted e s w) = csv_log w"
  "notices (prompted e s w) = notices w"
  by (simp_all add: prompted_def files_update_buttons)

lemma on_stop_failure:
  assumes "state s \<noteq> Idle" "0 < total_sec (now e) s"
    and "result (wait_window EntryDialog_init (dialog_actions e)) = Some d"
    and "jsonl_error e = Some msg \<or> (jsonl_error e = None \<and> csv_error e = Some msg)"
  shows "on_stop e (s, w) =
    update_buttons
      ((finalize (now e) s)\<lparr>state := Paused\<rparr>,
       show_notice (ShowError APP_TITLE (''Failed to write logs: '' @ msg))
         (snd (write_logs e (build_entry e (finalize (now e) s) d) (prompted e s w))))"
  using on_stop_confirm [OF assms(1-3), of w]
    write_logs_raises(1) [OF assms(4), of "build_entry e (finalize (now e) s) d" "prompted e s w"]
  by (simp add: prompted_def split: prod.splits option.splits)

lemma on_stop_success:
  assumes "state s \<noteq> Idle" "0 < total_sec (now e) s"
    and "result (wait_window EntryDialog_init (dialog_actions e)) = Some d"
    and "jsonl_error e = None" "csv_error e = None"
  shows "on_stop e (s, w) =
    reset_session (tick_time e)
      (finalize (now e) s,
       show_notice (ShowInfo APP_TITLE ''Entry saved.'')
         (snd (write_logs e (build_entry e (finalize (now e) s) d) (prompted e s w))))"
  using on_stop_confirm [OF assms(1-3), of w]
    write_logs_succeeds(1) [OF assms(4,5), of "build_entry e (finalize (now e) s) d" "prompted e s w"]
  by (simp add: prompted_def split: prod.splits option.splits)

text \<open>
  Claim C3. A Stop with a positive total, confirmed in the dialog, in which the append to
  the structured log or the append to the tabular log raises: the handler returns (the
  exception is a branch of \<open>on_stop\<close>), the error message is shown, the state is paused
  rather than idle, \<open>accum_seconds\<close> keeps the total, and the Stop button is enabled for
  a retry.
\<close>

theorem stop_write_failure:
  assumes "state (fst a) = Running \<or> state (fst a) = Paused"
    and "0 < total_sec (now e) (fst a)"
    and "result (wait_window EntryDialog_init (dialog_actions e)) \<noteq> None"
    and "jsonl_error e = Some msg \<or> (jsonl_error e = None \<and> csv_error e = Some msg)"
  shows "notices (snd (on_stop e a)) =
           notices (snd a) @ [ShowError APP_TITLE (''Failed to write logs: '' @ msg)] \<and>
         state (fst (on_stop e a)) = Paused \<and>
         accum_seconds (fst (on_stop e a)) = total_sec (now e) (fst a) \<and>
         accum_seconds (fst (on_stop e a)) \<noteq> 0 \<and>
         stop_btn (snd (on_stop e a))"
proof -
  obtain s w where a: "a = (s, w)" by (cases a)
  from assms a have ne: "state s \<noteq> Idle" and pos: "0 < total_sec (now e) s" by auto
  from assms(3) obtain d
    where d: "result (wait_window EntryDialog_init (dialog_actions e)) = Some d" by auto
  from on_stop_failure [OF ne pos d assms(4)] a pos show ?thesis
    by (simp add: frame_simps buttons_update_buttons session_finalize show_notice_def
          write_logs_raises(2) [OF assms(4)] files_prompted)
qed

theorem stop_write_failure_witness:
  "(state (fst running_app) = Running \<or> state (fst running_app) = Paused) \<and>
   0 < total_sec 135 (fst running_app) \<and>
   result (wait_window EntryDialog_init [SetNote ''review'', PressSave]) \<noteq> None \<and>
   notices (snd (on_stop
       ((at_time 135)\<lparr>dialog_actions := [SetNote ''review'', PressSave],
                       csv_error := Some ''Permission denied''\<rparr>) running_app)) =
     [ShowError ''Time Tracker'' ''Failed to write logs: Permission denied''] \<and>
   state (fst (on_stop
       ((at_time 135)\<lparr>dialog_actions := [SetNote ''review'', PressSave],
                       csv_error := Some ''Permission denied''\<rparr>) running_app)) = Paused \<and>
   accum_seconds (fst (on_stop
       ((at_time 135)\<lparr>dialog_actions := [SetNote ''review'', PressSave],
                       csv_error := Some ''Permission denied''\<rparr>) running_app)) = 125"
proof -
  let ?e = "(at_time 135)\<lparr>dialog_actions := [SetNote ''review'', PressSave],
                       csv_error := Some ''Permission denied''\<rparr>"
  have st: "state (fst running_app) = Running \<or> state (fst running_app) = Paused"
    by (simp add: running_app_eval)
  have nw: "now ?e = 135" by (simp add: at_time_def)
  have tot: "total_sec 135 (fst running_app) = 125"
    by (simp add: running_app_eval total_sec_def segment_seconds_def py_int_def)
  have pos: "0 < total_sec (now ?e) (fst running_app)"
    by (simp only: nw tot)
  have dlg: "result (wait_window EntryDialog_init (dialog_actions ?e)) \<noteq> None"
    by (simp add: at_time_def save_def)
  have err: "jsonl_error ?e = Some ''Permission denied'' \<or>
      (jsonl_error ?e = None \<and> csv_error ?e = Some ''Permission denied'')"
    by (simp add: at_time_def)
  have n0: "notices (snd running_app) = []" by (simp add: running_app_eval)
  from stop_write_failure [OF st pos dlg err] st dlg tot n0 show ?thesis
    by (simp add: APP_TITLE_def at_time_def)
qed

text \<open>
  Claim C8. A Stop with a positive total, confirmed in the dialog, with both appends
  succeeding, appends exactly one record to the structured log and exactly one row to the
  tabular log. Both come from the one entry built: the row is the record's values in
  order, the record's keys are the declared columns, the id is the fresh uuid and the
  duration is the total. Afterwards \<open>accum_seconds\<close> is 0 and the state is idle.
\<close>

theorem stop_success:
  assumes "state (fst a) = Running \<or> state (fst a) = Paused"
    and "0 < total_sec (now e) (fst a)"
    and "result (wait_window EntryDialog_init (dialog_actions e)) = Some d"
    and "jsonl_error e = None" and "csv_error e = None"
  shows "jsonl_log (snd (on_stop e a)) =
           jsonl_log (snd a) @ [asdict (build_entry e (finalize (now e) (fst a)) d)] \<and>
         csv_log (snd (on_stop e a)) =
           csv_log (snd a) @ [to_row (build_entry e (finalize (now e) (fst a)) d)] \<and>
         map snd (asdict (build_entry e (finalize (now e) (fst a)) d)) =
           to_row (build_entry e (finalize (now e) (fst a)) d) \<and>
         map fst (asdict (build_entry e (finalize (now e) (fst a)) d)) = CSV_HEADER \<and>
         entry_id (build_entry e (finalize (now e) (fst a)) d) = uuid4 e \<and>
         duration_seconds (build_entry e (finalize (now e) (fst a)) d) =
           total_sec (now e) (fst a) \<and>
         accum_seconds (fst (on_stop e a)) = 0 \<and>
         state (fst (on_stop e a)) = Idle"
proof -
  obtain s w where a: "a = (s, w)" by (cases a)
  from assms a have ne: "state s \<noteq> Idle" and pos: "0 < total_sec (now e) s" by auto
  have row: "map snd (asdict x) = to_row x" "map fst (asdict x) = CSV_HEADER" for x
    by (simp_all add: asdict_def to_row_def CSV_HEADER_def)
  have ent: "entry_id (build_entry e (finalize (now e) s) d) = uuid4 e"
    "duration_seconds (build_entry e (finalize (now e) s) d) = total_sec (now e) s"
    by (simp_all add: build_entry_def Let_def session_finalize)
  from on_stop_success [OF ne pos assms(3-5)] a row ent show ?thesis
    by (simp add: frame_simps show_notice_def write_logs_succeeds [OF assms(4,5)] files_prompted)
qed

lemma now_at_time: "now (at_time t) = t"
  by (simp add: at_time_def)

theorem stop_success_witness:
  "(state (fst paused_app) = Running \<or> state (fst paused_app) = Paused) \<and>
   0 < total_sec 140 (fst paused_app) \<and>
   result (wait_window EntryDialog_init
      [SetLink ''https://tracker/T-1 '', SetNote ''a, b'', SelectStatus 3, PressSave]) =
     Some [(''ticket_url'', ''https://tracker/T-1''), (''note'', ''a, b''), (''status'', ''review'')] \<and>
   jsonl_log (snd (on_stop
      ((at_time 140)\<lparr>dialog_actions :=
         [SetLink ''https://tracker/T-1 '', SetNote ''a, b'', SelectStatus 3, PressSave]\<rparr>)
      paused_app)) =
     [[(''id'', PStr ''uuid-1''), (''date'', PStr ''1970-01-01''), (''start_iso'', PStr ''5''),
       (''end_iso'', PStr ''140''), (''duration_seconds'', PInt 125),
       (''duration_hms'', PStr ''00:02:05''), (''ticket_url'', PStr ''https://tracker/T-1''),
       (''note'', PStr ''a, b''), (''status'', PStr ''review'')]] \<and>
   csv_log (snd (on_stop
      ((at_time 140)\<lparr>dialog_actions :=
         [SetLink ''https://tracker/T-1 '', SetNote ''a, b'', SelectStatus 3, PressSave]\<rparr>)
      paused_app)) =
     [[PStr ''uuid-1'', PStr ''1970-01-01'', PStr ''5'', PStr ''140'', PInt 125,
       PStr ''00:02:05'', PStr ''https://tracker/T-1'', PStr ''a, b'', PStr ''review'']] \<and>
   accum_seconds (fst (on_stop
      ((at_time 140)\<lparr>dialog_actions :=
         [SetLink ''https://tracker/T-1 '', SetNote ''a, b'', SelectStatus 3, PressSave]\<rparr>)
      paused_app)) = 0 \<and>
   state (fst (on_stop
      ((at_time 140)\<lparr>dialog_actions :=
         [SetLink ''https://tracker/T-1 '', SetNote ''a, b'', SelectStatus 3, PressSave]\<rparr>)
      paused_app)) = Idle"
proof -
  let ?acts = "[SetLink ''https://tracker/T-1 '', SetNote ''a, b'', SelectStatus 3, PressSave]"
  let ?d = "[(''ticket_url'', ''https://tracker/T-1''), (''note'', ''a, b''), (''status'', ''review'')]"
  let ?e = "(at_time 140)\<lparr>dialog_actions := ?acts\<rparr>"
  have nw: "now ?e = 140" by (simp add: at_time_def)
  have st: "state (fst paused_app) = Running \<or> state (fst paused_app) = Paused"
    by (simp add: paused_app_eval)
  have tot: "total_sec 140 (fst paused_app) = 125"
    by (simp add: paused_app_eval total_sec_def)
  have pos: "0 < total_sec (now ?e) (fst paused_app)"
    by (simp only: nw tot)
  have dlg: "result (wait_window EntryDialog_init ?acts) = Some ?d"
    by (simp add: EntryDialog_init_def STATUSES_def save_def strip_def py_isspace_def)
  have dlg': "result (wait_window EntryDialog_init (dialog_actions ?e)) = Some ?d"
    using dlg by simp
  have je: "jsonl_error ?e = None" and ce: "csv_error ?e = None"
    by (simp_all add: at_time_def)
  have entry: "build_entry ?e (finalize 140 (fst paused_app)) ?d =
      \<lparr>entry_id = ''uuid-1'', date = ''1970-01-01'', start_iso = ''5'', end_iso = ''140'',
       duration_seconds = 125, duration_hms = ''00:02:05'',
       ticket_url = ''https://tracker/T-1'', note_text = ''a, b'', status = ''review''\<rparr>"
    by (simp add: paused_app_eval build_entry_def finalize_def total_sec_def or_now_def
          at_time_def dict_get_def fmt_hms_def fmt02d_def dec.simps digit_char_def Let_def)
  have logs: "jsonl_log (snd paused_app) = []" "csv_log (snd paused_app) = []"
    by (simp_all add: paused_app_eval)
  from stop_success [OF st pos dlg' je ce] st tot dlg logs show ?thesis
    by (simp add: now_at_time entry asdict_def to_row_def)
qed

subsection \<open>What a Stop appends to the logs\<close>

lemma jsonl_write_logs:
  "jsonl_log (snd (write_logs e x w)) =
     jsonl_log w @ (if jsonl_error e = None then [asdict x] else [])"
  by (simp add: write_logs_def Let_def split: option.split)

lemma csv_write_logs:
  "csv_log (snd (write_logs e x w)) =
     csv_log w @ (if jsonl_error e = None \<and> csv_error e = None then [to_row x] else [])"
  by (simp add: write_logs_def Let_def split: option.split)

lemma on_stop_logs:
  "jsonl_log (snd (on_stop e a)) = jsonl_log (snd a) @ stop_records e (fst a)"
  "csv_log (snd (on_stop e a)) = csv_log (snd a) @ stop_rows e (fst a)"
proof -
  obtain s w where a: "a = (s, w)" by (cases a)
  have "jsonl_log (snd (on_stop e (s, w))) = jsonl_log w @ stop_records e s \<and>
        csv_log (snd (on_stop e (s, w))) = csv_log w @ stop_rows e s"
  proof (cases "state s = Idle")
    case True
    then show ?thesis
      by (simp add: on_stop_idle stop_records_def stop_rows_def stop_entry_def)
  next
    case ne: False
    show ?thesis
    proof (cases "total_sec (now e) s \<le> 0")
      case True
      with ne show ?thesis
        by (simp add: on_stop_zero frame_simps show_notice_def stop_records_def stop_rows_def
              stop_entry_def)
    next
      case False
      then have pos: "0 < total_sec (now e) s" by simp
      show ?thesis
      proof (cases "result (wait_window EntryDialog_init (dialog_actions e))")
        case None
        with ne pos show ?thesis
          by (simp add: on_stop_cancel frame_simps stop_records_def stop_rows_def stop_entry_def)
      next
        case (Some d)
        have se: "stop_entry e s = Some (build_entry e (finalize (now e) s) d)"
          using ne pos Some by (simp add: stop_entry_def)
        show ?thesis
        proof (cases "jsonl_error e = None \<and> csv_error e = None")
          case True
          then have je: "jsonl_error e = None" and ce: "csv_error e = None" by simp_all
          from on_stop_success [OF ne pos Some je ce, of w] show ?thesis
            by (simp add: frame_simps show_notice_def jsonl_write_logs csv_write_logs
                  files_prompted stop_records_def stop_rows_def se je ce)
        next
          case False
          then obtain msg where
            err: "jsonl_error e = Some msg \<or> (jsonl_error e = None \<and> csv_error e = Some msg)"
            by (cases "jsonl_error e"; cases "csv_error e") auto
          from on_stop_failure [OF ne pos Some err, of w] False show ?thesis
            by (simp add: frame_simps show_notice_def jsonl_write_logs csv_write_logs
                  files_prompted stop_records_def stop_rows_def se)
        qed
      qed
    qed
  qed
  with a show "jsonl_log (snd (on_stop e a)) = jsonl_log (snd a) @ stop_records e (fst a)"
    and "csv_log (snd (on_stop e a)) = csv_log (snd a) @ stop_rows e (fst a)"
    by simp_all
qed





lemma in_stop_records:
  assumes "r \<in> set (stop_records e s)"
  obtains x where "stop_entry e s = Some x" and "r = asdict x"
  using assms by (cases "stop_entry e s") (auto simp: stop_records_def split: if_splits)


lemma confirm_at_fields:
  "now (confirm_at t) = t"
  "jsonl_error (confirm_at t) = None"
  "csv_error (confirm_at t) = None"
  "result (wait_window EntryDialog_init (dialog_actions (confirm_at t))) =
     Some [(''ticket_url'', ''https://tracker/T-1''), (''note'', ''a, b''), (''status'', ''review'')]"
  by (simp_all add: confirm_at_def at_time_def EntryDialog_init_def STATUSES_def save_def
        strip_def py_isspace_def)













subsection \<open>Accumulated seconds and running segments\<close>

lemma on_stop_session_cases:
  assumes "state s \<noteq> Idle"
  obtains (reset) "state (fst (on_stop e (s, w))) = Idle"
      "accum_seconds (fst (on_stop e (s, w))) = 0"
      "last_resume_at (fst (on_stop e (s, w))) = None"
      "session_start (fst (on_stop e (s, w))) = None"
  | (rollback) "0 < total_sec (now e) s"
      "fst (on_stop e (s, w)) = (finalize (now e) s)\<lparr>state := Paused\<rparr>"
proof (cases "total_sec (now e) s \<le> 0")
  case True
  with assms have "state (fst (on_stop e (s, w))) = Idle"
    "accum_seconds (fst (on_stop e (s, w))) = 0"
    "last_resume_at (fst (on_stop e (s, w))) = None"
    "session_start (fst (on_stop e (s, w))) = None"
    by (simp_all add: on_stop_zero frame_simps session_finalize)
  then show ?thesis by (rule reset)
next
  case False
  then have pos: "0 < total_sec (now e) s" by simp
  show ?thesis
  proof (cases "result (wait_window EntryDialog_init (dialog_actions e))")
    case None
    from on_stop_cancel [OF assms pos None, of w]
    have "fst (on_stop e (s, w)) = (finalize (now e) s)\<lparr>state := Paused\<rparr>"
      by (simp add: frame_simps)
    with pos show ?thesis by (rule rollback)
  next
    case (Some d)
    show ?thesis
    proof (cases "jsonl_error e = None \<and> csv_error e = None")
      case True
      then have je: "jsonl_error e = None" and ce: "csv_error e = None" by simp_all
      from on_stop_success [OF assms pos Some je ce, of w]
      have "state (fst (on_stop e (s, w))) = Idle"
        "accum_seconds (fst (on_stop e (s, w))) = 0"
        "last_resume_at (fst (on_stop e (s, w))) = None"
        "session_start (fst (on_stop e (s, w))) = None"
        by (simp_all add: frame_simps session_finalize)
      then show ?thesis by (rule reset)
    next
      case False
      then obtain msg where
        err: "jsonl_error e = Some msg \<or> (jsonl_error e = None \<and> csv_error e = Some msg)"
        by (cases "jsonl_error e"; cases "csv_error e") auto
      from on_stop_failure [OF assms pos Some err, of w]
      have "fst (on_stop e (s, w)) = (finalize (now e) s)\<lparr>state := Paused\<rparr>"
        by (simp add: frame_simps)
      with pos show ?thesis by (rule rollback)
    qed
  qed
qed

lemma sum_close_segment:
  "sum_list (map seg_seconds (close_segment opn t)) = segment_seconds opn t"
  by (cases opn) (simp_all add: close_segment_def seg_seconds_def segment_seconds_def)

lemma tracks_step:
  assumes "tracks a g"
  shows "tracks (step ev e a)
           (track_step ev (now e) (state (fst a)) (state (fst (step ev e a))) g)"
proof -
  obtain s w where a: "a = (s, w)" by (cases a)
  obtain opn segs where g: "g = (opn, segs)" by (cases g)
  from assms a g have acc: "accum_seconds s = sum_list (map seg_seconds segs)"
    and opn: "opn = last_resume_at s" and inv: "resume_inv s"
    by (simp_all add: tracks_def)
  show ?thesis
  proof (cases ev)
    case Play
    with a g acc opn inv show ?thesis
      by (cases "state s")
        (simp_all add: tracks_def on_play_def frame_simps resume_inv_def)
  next
    case Pause
    with a g acc opn inv show ?thesis
      by (cases "state s")
        (simp_all add: tracks_def on_pause_def frame_simps resume_inv_def sum_close_segment)
  next
    case Stop
    show ?thesis
    proof (cases "state s = Idle")
      case True
      with Stop a g assms show ?thesis by (simp add: on_stop_idle)
    next
      case False
      then show ?thesis
      proof (cases rule: on_stop_session_cases [of s e w])
        case reset
        with False Stop a g show ?thesis
          by (cases "state s") (simp_all add: tracks_def resume_inv_def)
      next
        case rollback
        from inv False have "state s = Paused \<Longrightarrow> last_resume_at s = None"
          by (simp add: resume_inv_def)
        with rollback False Stop a g acc opn show ?thesis
          by (cases "state s")
            (simp_all add: tracks_def resume_inv_def finalize_def total_sec_def
               sum_close_segment segment_seconds_def)
      qed
    qed
  qed
qed

lemma tracks_run:
  "tracks a g \<Longrightarrow> tracks (run evs a) (track evs a g)"
proof (induction evs arbitrary: a g)
  case Nil
  then show ?case by simp
next
  case (Cons p evs)
  obtain ev e where p: "p = (ev, e)" by (cases p)
  from Cons.prems have "tracks (step ev e a)
      (track_step ev (now e) (state (fst a)) (state (fst (step ev e a))) g)"
    by (rule tracks_step)
  then show ?case using p by (simp add: Cons.IH)
qed

lemma tracks_init: "tracks (init_app jl cl) (None, [])"
  by (simp add: tracks_def init_app_def update_buttons_def resume_inv_def)

lemma stop_entry_duration:
  assumes "stop_entry e s = Some x"
  shows "duration_seconds x = total_sec (now e) s" and "state s \<noteq> Idle"
  using assms
  by (auto simp: stop_entry_def build_entry_def Let_def session_finalize split: if_splits)

lemma tracks_total:
  assumes "tracks a g" "state (fst a) \<noteq> Idle"
  shows "total_sec t (fst a) = sum_list (map seg_seconds (snd g @ close_segment (fst g) t))"
proof (cases "state (fst a)")
  case Idle
  with assms show ?thesis by simp
next
  case Running
  with assms show ?thesis
    by (simp add: tracks_def total_sec_def sum_close_segment)
next
  case Paused
  with assms have "fst g = None"
    by (simp add: tracks_def resume_inv_def)
  with Paused assms show ?thesis
    by (simp add: tracks_def total_sec_def close_segment_def)
qed

text \<open>
  Claim C1. From the initial state, after any sequence of Play, Pause and Stop events
  that respects the enabled-button preconditions (so in particular after any Pause or
  Stop), \<open>accum_seconds\<close> is the sum of the whole-second truncations of the running
  segments since the last reset to zero. A Stop issued next records, in any entry it
  appends, that same sum with the open segment closed at the Stop's instant: the total
  is summed per segment, not derived from end minus start.
\<close>

theorem accum_is_sum_of_segments:
  assumes "respects_buttons evs (init_app jl cl)"
  shows "accum_seconds (fst (run evs (init_app jl cl))) =
           sum_list (map seg_seconds (snd (track evs (init_app jl cl) (None, [])))) \<and>
         (\<forall>r \<in> set (drop (length (jsonl_log (snd (run evs (init_app jl cl)))))
                      (jsonl_log (snd (on_stop e (run evs (init_app jl cl)))))).
            map_of r ''duration_seconds'' =
              Some (PInt (sum_list (map seg_seconds
                (snd (track evs (init_app jl cl) (None, [])) @
                 close_segment (fst (track evs (init_app jl cl) (None, []))) (now e))))))"
proof
  let ?a = "run evs (init_app jl cl)" and ?g = "track evs (init_app jl cl) (None, [])"
  have tr: "tracks ?a ?g"
    by (rule tracks_run) (rule tracks_init)
  then show "accum_seconds (fst ?a) = sum_list (map seg_seconds (snd ?g))"
    by (simp add: tracks_def)
  show "\<forall>r \<in> set (drop (length (jsonl_log (snd ?a))) (jsonl_log (snd (on_stop e ?a)))).
      map_of r ''duration_seconds'' =
        Some (PInt (sum_list (map seg_seconds (snd ?g @ close_segment (fst ?g) (now e)))))"
  proof
    fix r assume "r \<in> set (drop (length (jsonl_log (snd ?a))) (jsonl_log (snd (on_stop e ?a))))"
    then have "r \<in> set (stop_records e (fst ?a))"
      by (simp add: on_stop_logs)
    then obtain x where x: "stop_entry e (fst ?a) = Some x" and r: "r = asdict x"
      by (rule in_stop_records)
    from stop_entry_duration [OF x] tracks_total [OF tr, of "now e"]
    have "duration_seconds x =
        sum_list (map seg_seconds (snd ?g @ close_segment (fst ?g) (now e)))"
      by simp
    with r show "map_of r ''duration_seconds'' =
        Some (PInt (sum_list (map seg_seconds (snd ?g @ close_segment (fst ?g) (now e)))))"
      by (simp add: asdict_def)
  qed
qed

lemma drift_run_eval:
  "run drift_events (init_app [] []) =
    (\<lparr>state = Paused, session_start = Some 1, session_end = None, accum_seconds = 2,
      tick_job = True, last_resume_at = None\<rparr>,
     \<lparr>jsonl_log = [], csv_log = [], notices = [], dialogs = [],
      play_btn = True, pause_btn = False, stop_btn = True, elapsed_lbl = ''00:00:00''\<rparr>)"
  by (simp add: drift_events_def eval_simps fmt_hms_def fmt02d_def dec.simps digit_char_def)

lemma drift_track_eval:
  "track drift_events (init_app [] []) (None, []) = (None, [(1, 29 / 10), (3, 49 / 10)])"
  by (simp add: drift_events_def eval_simps close_segment_def fmt_hms_def fmt02d_def dec.simps
        digit_char_def)

lemma drift_respects: "respects_buttons drift_events (init_app [] [])"
  by (simp add: drift_events_def eval_simps fmt_hms_def fmt02d_def dec.simps digit_char_def)

lemma drift_stop_eval:
  "jsonl_log (snd (on_stop (confirm_at 5) (run drift_events (init_app [] [])))) =
     [[(''id'', PStr ''uuid-1''), (''date'', PStr ''1970-01-01''), (''start_iso'', PStr ''1''),
       (''end_iso'', PStr ''5''), (''duration_seconds'', PInt 2),
       (''duration_hms'', PStr ''00:00:02''), (''ticket_url'', PStr ''https://tracker/T-1''),
       (''note'', PStr ''a, b''), (''status'', PStr ''review'')]]"
  by (simp only: drift_run_eval)
    (simp add: confirm_at_def eval_simps fmt_hms_def fmt02d_def dec.simps digit_char_def)

theorem accum_is_sum_of_segments_witness:
  "respects_buttons drift_events (init_app [] []) \<and>
   snd (track drift_events (init_app [] []) (None, [])) = [(1, 29 / 10), (3, 49 / 10)] \<and>
   map seg_seconds [(1, 29 / 10), (3, 49 / 10)] = [1, 1] \<and>
   accum_seconds (fst (run drift_events (init_app [] []))) = 2 \<and>
   (\<exists>r. set (drop (length (jsonl_log (snd (run drift_events (init_app [] [])))))
             (jsonl_log (snd (on_stop (confirm_at 5) (run drift_events (init_app [] [])))))) = {r} \<and>
        map_of r ''duration_seconds'' = Some (PInt 2)) \<and>
   py_int (now (confirm_at 5) - 1) = 4"
proof -
  have sg: "map seg_seconds [(1, 29 / 10), (3, 49 / 10)] = [1, 1]"
    by (simp add: seg_seconds_def py_int_def)
  have l: "jsonl_log (snd (run drift_events (init_app [] []))) = []"
    by (simp add: drift_run_eval)
  have n: "py_int (now (confirm_at 5) - 1) = 4"
    by (simp add: confirm_at_fields py_int_def)
  from accum_is_sum_of_segments [OF drift_respects, of "confirm_at 5"] sg l n drift_respects
  show ?thesis
    by (simp add: drift_track_eval drift_stop_eval)
qed

subsection \<open>Rollback and the entry of a later Stop\<close>














end
